theory Spec2Isabelle
  imports Main "HOL-Library.Sublist"
begin

section \<open>Strings as the code uses them\<close>

text \<open>
  JavaScript strings are modelled as \<open>string\<close> (character lists). The operations the
  code applies to them (\<open>startsWith\<close>, \<open>includes\<close>, \<open>split\<close>) only compare characters,
  so they read the same on character lists.
\<close>

definition startsWith :: "string \<Rightarrow> string \<Rightarrow> bool" where
  "startsWith s p = (take (length p) s = p)"

text \<open>
  \<open>s.split(c)\<close> for a one-character separator: every occurrence of the separator cuts,
  and the empty string yields one empty piece.
\<close>

fun split_on :: "char \<Rightarrow> string \<Rightarrow> string list" where
  "split_on c [] = [[]]"
| "split_on c (x # xs) =
     (if x = c then [] # split_on c xs
      else (case split_on c xs of
              [] \<Rightarrow> [[x]]
            | p # ps \<Rightarrow> (x # p) # ps))"

section \<open>The command builder (src/build/runner.ts, class XcodeCommandBuilder)\<close>

text \<open>
  \<open>parameters\<close> holds \<open>{arg, value}\<close> objects, \<open>buildSettings\<close> holds \<open>{key, value}\<close>
  objects, \<open>actions\<close> holds strings. The two \<open>value\<close> fields are named \<open>pvalue\<close> and
  \<open>svalue\<close> here.
\<close>

record parameter =
  arg :: string
  pvalue :: string

record setting =
  key :: string
  svalue :: string

record builder =
  parameters :: "parameter list"
  buildSettings :: "setting list"
  actions :: "string list"

definition NO_VALUE :: string where
  "NO_VALUE = ''__NO_VALUE__''"

definition xcodebuild :: string where
  "xcodebuild = ''xcodebuild''"

definition newBuilder :: builder where
  "newBuilder = \<lparr>parameters = [], buildSettings = [], actions = []\<rparr>"

definition addBuildSettings :: "string \<Rightarrow> string \<Rightarrow> builder \<Rightarrow> builder" where
  "addBuildSettings k v b = b\<lparr>buildSettings := buildSettings b @ [\<lparr>key = k, svalue = v\<rparr>]\<rparr>"

definition addOption :: "string \<Rightarrow> builder \<Rightarrow> builder" where
  "addOption flag b = b\<lparr>parameters := parameters b @ [\<lparr>arg = flag, pvalue = NO_VALUE\<rparr>]\<rparr>"

definition addParameters :: "string \<Rightarrow> string \<Rightarrow> builder \<Rightarrow> builder" where
  "addParameters a v b = b\<lparr>parameters := parameters b @ [\<lparr>arg = a, pvalue = v\<rparr>]\<rparr>"

definition addAction :: "string \<Rightarrow> builder \<Rightarrow> builder" where
  "addAction action b = b\<lparr>actions := actions b @ [action]\<rparr>"

text \<open>
  The branch of the scan for a token that is not the head of a (flag, value) pair:
  bare option, build setting, action, or unknown (the code only prints a warning and the
  builder is left as it is). The build-setting branch destructures the first two pieces
  of \<open>current.split("=")\<close>; a token holding \<open>=\<close> always has two pieces, so the
  one-piece alternatives below are never taken (see \<open>split_on_two_pieces\<close>); there the
  second piece would be JavaScript's \<open>undefined\<close>.
\<close>

definition classifySingle :: "string \<Rightarrow> builder \<Rightarrow> builder" where
  "classifySingle current b =
     (if startsWith current ''-'' then
        b\<lparr>parameters := parameters b @ [\<lparr>arg = current, pvalue = NO_VALUE\<rparr>]\<rparr>
      else if CHR ''='' \<in> set current then
        (case split_on (CHR ''='') current of
           a # v # _ \<Rightarrow> b\<lparr>buildSettings := buildSettings b @ [\<lparr>key = a, svalue = v\<rparr>]\<rparr>
         | [a] \<Rightarrow> b\<lparr>buildSettings := buildSettings b @ [\<lparr>key = a, svalue = ''undefined''\<rparr>]\<rparr>
         | [] \<Rightarrow> b\<lparr>buildSettings := buildSettings b @ [\<lparr>key = ''undefined'', svalue = ''undefined''\<rparr>]\<rparr>)
      else if current \<in> set [''clean'', ''build'', ''test''] then
        b\<lparr>actions := actions b @ [current]\<rparr>
      else b)"

text \<open>
  The \<open>for\<close> loop of \<open>addAdditionalArgs\<close>. \<open>current && next && ...\<close> needs both
  tokens to be non-empty strings; when the pair branch is taken the loop skips \<open>next\<close>.
\<close>

fun scanArgs :: "string list \<Rightarrow> builder \<Rightarrow> builder" where
  "scanArgs [] b = b"
| "scanArgs [current] b = classifySingle current b"
| "scanArgs (current # next # rest) b =
     (if current \<noteq> [] \<and> next \<noteq> [] \<and> startsWith current ''-'' \<and> \<not> startsWith next ''-''
      then scanArgs rest (b\<lparr>parameters := parameters b @ [\<lparr>arg = current, pvalue = next\<rparr>]\<rparr>)
      else scanArgs (next # rest) (classifySingle current b))"

text \<open>
  \<open>.filter\<close> with a \<open>Set\<close> of the keys seen so far: an element passes when its key has
  not been seen, and its key is then recorded.
\<close>

fun filterSeen :: "('a \<Rightarrow> string) \<Rightarrow> string set \<Rightarrow> 'a list \<Rightarrow> 'a list" where
  "filterSeen f seen [] = []"
| "filterSeen f seen (x # xs) =
     (if f x \<in> seen then filterSeen f seen xs
      else x # filterSeen f (insert (f x) seen) xs)"

definition dedupAll :: "builder \<Rightarrow> builder" where
  "dedupAll b =
     \<lparr>parameters = rev (filterSeen arg {} (rev (parameters b))),
      buildSettings = rev (filterSeen key {} (rev (buildSettings b))),
      actions = filterSeen (\<lambda>a. a) {} (actions b)\<rparr>"

definition addAdditionalArgs :: "string list \<Rightarrow> builder \<Rightarrow> builder" where
  "addAdditionalArgs args b = (if args = [] then b else dedupAll (scanArgs args b))"

definition renderSetting :: "setting \<Rightarrow> string" where
  "renderSetting s = key s @ ''='' @ svalue s"

definition renderParameter :: "parameter \<Rightarrow> string list" where
  "renderParameter p = (if pvalue p \<noteq> NO_VALUE then [arg p, pvalue p] else [arg p])"

definition build :: "builder \<Rightarrow> string list" where
  "build b =
     xcodebuild # map renderSetting (buildSettings b)
       @ concat (map renderParameter (parameters b))
       @ actions b"

text \<open>
  The command assembly of \<open>buildApp\<close>. The values \<open>buildApp\<close> reads from the runtime
  and from helpers (\<open>build.arch\<close>, the bundle path, the derived-data path,
  \<open>build.allowProvisioningUpdates\<close>, \<open>build.args\<close>) are fields of the options record;
  \<open>if (arch)\<close> and \<open>if (derivedDataPath)\<close> test for a present, non-empty string.
\<close>

record buildOptions =
  scheme :: string
  configuration :: string
  xcworkspace :: string
  destinationRaw :: string
  debug :: bool
  shouldBuild :: bool
  shouldClean :: bool
  shouldTest :: bool
  arch :: "string option"
  bundlePath :: string
  derivedDataPath :: "string option"
  allowProvisioningUpdates :: bool
  additionalArgs :: "string list"

definition truthyStr :: "string option \<Rightarrow> bool" where
  "truthyStr s = (case s of None \<Rightarrow> False | Some t \<Rightarrow> t \<noteq> [])"

definition whenB :: "bool \<Rightarrow> (builder \<Rightarrow> builder) \<Rightarrow> builder \<Rightarrow> builder" where
  "whenB c f b = (if c then f b else b)"

text \<open>The calls on the builder, in the order \<open>buildApp\<close> makes them.\<close>

definition buildAppCommand :: "buildOptions \<Rightarrow> builder" where
  "buildAppCommand opts =
     foldl (\<lambda>command step. step command) newBuilder
       [whenB (truthyStr (arch opts))
          (addBuildSettings ''ARCHS'' (case arch opts of Some a \<Rightarrow> a | None \<Rightarrow> [])),
        whenB (truthyStr (arch opts))
          (addBuildSettings ''VALID_ARCHS'' (case arch opts of Some a \<Rightarrow> a | None \<Rightarrow> [])),
        whenB (truthyStr (arch opts)) (addBuildSettings ''ONLY_ACTIVE_ARCH'' ''NO''),
        whenB (debug opts) (addBuildSettings ''GCC_GENERATE_DEBUGGING_SYMBOLS'' ''YES''),
        whenB (debug opts) (addBuildSettings ''ONLY_ACTIVE_ARCH'' ''YES''),
        addParameters ''-scheme'' (scheme opts),
        addParameters ''-configuration'' (configuration opts),
        addParameters ''-workspace'' (xcworkspace opts),
        addParameters ''-destination'' (destinationRaw opts),
        addParameters ''-resultBundlePath'' (bundlePath opts),
        whenB (truthyStr (derivedDataPath opts))
          (addParameters ''-derivedDataPath''
             (case derivedDataPath opts of Some p \<Rightarrow> p | None \<Rightarrow> [])),
        whenB (allowProvisioningUpdates opts) (addOption ''-allowProvisioningUpdates''),
        whenB (shouldClean opts) (addAction ''clean''),
        whenB (shouldBuild opts) (addAction ''build''),
        whenB (shouldTest opts) (addAction ''test''),
        addAdditionalArgs (additionalArgs opts)]"

text \<open>
  Two reference functions for stating what deduplication keeps. \<open>keepLast\<close> keeps, for
  every key, the last entry carrying it, at the place where that entry stands;
  \<open>keepFirst\<close> keeps the first one.
\<close>

fun keepLast :: "('a \<Rightarrow> 'k) \<Rightarrow> 'a list \<Rightarrow> 'a list" where
  "keepLast f [] = []"
| "keepLast f (x # xs) = (if f x \<in> f ` set xs then keepLast f xs else x # keepLast f xs)"

definition keepFirst :: "('a \<Rightarrow> 'k) \<Rightarrow> 'a list \<Rightarrow> 'a list" where
  "keepFirst f xs = rev (keepLast f (rev xs))"

text \<open>
  The deduplication as the specification words it: one entry per key, standing where the
  key was first declared and carrying the value of its last declaration.
\<close>

fun specDedup :: "('a \<Rightarrow> 'k) \<Rightarrow> 'a list \<Rightarrow> 'a list" where
  "specDedup f [] = []"
| "specDedup f (x # xs) =
     last (x # filter (\<lambda>y. f y = f x) xs) # specDedup f (filter (\<lambda>y. f y \<noteq> f x) xs)"

definition specAddAdditionalArgs :: "string list \<Rightarrow> builder \<Rightarrow> builder" where
  "specAddAdditionalArgs args b =
     (let m = scanArgs args b in
      \<lparr>parameters = specDedup arg (parameters m),
       buildSettings = specDedup key (buildSettings m),
       actions = specDedup (\<lambda>a. a) (actions m)\<rparr>)"

section \<open>JSON values and further string operations\<close>

text \<open>
  Values read from the state file, from the settings file and from environment overrides
  are JSON values. Numbers are restricted to integers.
\<close>

datatype json =
    JNull
  | JBool bool
  | JNum int
  | JStr string
  | JArr "json list"
  | JObj "(string \<times> json) list"

text \<open>JavaScript truthiness of a JSON value, as tested by \<open>if (x)\<close> and \<open>x && ...\<close>.\<close>

fun truthy :: "json \<Rightarrow> bool" where
  "truthy JNull = False"
| "truthy (JBool b) = b"
| "truthy (JNum n) = (n \<noteq> 0)"
| "truthy (JStr s) = (s \<noteq> [])"
| "truthy (JArr xs) = True"
| "truthy (JObj kvs) = True"

text \<open>
  \<open>toUpperCase\<close>, \<open>toLowerCase\<close> and \<open>trim\<close> on the ASCII range (characters here are
  bytes; the code applies them to configuration keys, identifiers and labels).
\<close>

definition lowerLetters :: string where
  "lowerLetters = ''abcdefghijklmnopqrstuvwxyz''"

definition upperLetters :: string where
  "upperLetters = ''ABCDEFGHIJKLMNOPQRSTUVWXYZ''"

definition toUpperChar :: "char \<Rightarrow> char" where
  "toUpperChar c = (case map_of (zip lowerLetters upperLetters) c of None \<Rightarrow> c | Some u \<Rightarrow> u)"

definition toLowerChar :: "char \<Rightarrow> char" where
  "toLowerChar c = (case map_of (zip upperLetters lowerLetters) c of None \<Rightarrow> c | Some l \<Rightarrow> l)"

definition toUpperCase :: "string \<Rightarrow> string" where
  "toUpperCase s = map toUpperChar s"

definition toLowerCase :: "string \<Rightarrow> string" where
  "toLowerCase s = map toLowerChar s"

definition isSpace :: "char \<Rightarrow> bool" where
  "isSpace c = (c \<in> set [CHR 0x09, CHR 0x0A, CHR 0x0B, CHR 0x0C, CHR 0x0D, CHR '' ''])"

definition trim :: "string \<Rightarrow> string" where
  "trim s = rev (dropWhile isSpace (rev (dropWhile isSpace s)))"

fun includesStr :: "string \<Rightarrow> string \<Rightarrow> bool" where
  "includesStr [] t = (t = [])"
| "includesStr (x # xs) t = (startsWith (x # xs) t \<or> includesStr xs t)"

section \<open>Errors, paths and files\<close>

text \<open>
  Every \<open>throw\<close> of the code is a value of \<open>error\<close>: the repository's own
  \<open>ExtensionError\<close> with its message, a file-system error with its \<open>code\<close>, the
  \<open>SyntaxError\<close> of \<open>JSON.parse\<close>, a \<open>TypeError\<close> of the runtime, or a failure to spawn
  a process.
\<close>

datatype errno = ENOENT | ENOTDIR | EISDIR | EACCES | EEXIST

datatype error =
    ExtensionError string
  | FsError errno
  | SyntaxError
  | TypeError
  | SpawnError

text \<open>
  The runtime's path and file functions, on slash-separated paths that need no
  normalisation: \<open>path.join\<close> puts a separator between its arguments,
  \<open>path.dirname\<close> cuts at the last separator, \<open>path.isAbsolute\<close> looks at the first
  character, \<open>path.relative\<close> removes the directory prefix.
\<close>

definition path_join :: "string \<Rightarrow> string \<Rightarrow> string" where
  "path_join a b = a @ ''/'' @ b"

definition path_dirname :: "string \<Rightarrow> string" where
  "path_dirname p = rev (drop 1 (dropWhile (\<lambda>c. c \<noteq> CHR ''/'') (rev p)))"

definition path_isAbsolute :: "string \<Rightarrow> bool" where
  "path_isAbsolute p = startsWith p ''/''"

definition path_relative :: "string \<Rightarrow> string \<Rightarrow> string" where
  "path_relative root p =
     (if startsWith p (root @ ''/'') then drop (length root + 1) p else p)"

text \<open>
  A file system is the map of its regular files, the set of its directories and the set
  of paths the process has no permission on. The root and the working directory are
  taken to exist and to be accessible.

  \<open>parents p\<close> lists the ancestors of a path, outermost first: the text before each
  separator of \<open>p\<close> other than a leading one. Resolving a path walks through them: an
  ancestor that is a regular file gives \<open>ENOTDIR\<close>, one that does not exist gives
  \<open>ENOENT\<close>, one without permission gives \<open>EACCES\<close>.
\<close>

record fs =
  files :: "string \<rightharpoonup> string"
  dirs :: "string set"
  denied :: "string set"

fun parentsFrom :: "string \<Rightarrow> string \<Rightarrow> string list" where
  "parentsFrom seen [] = []"
| "parentsFrom seen (c # cs) =
     (if c = CHR ''/'' \<and> seen \<noteq> [] then [rev seen] else []) @ parentsFrom (c # seen) cs"

definition parents :: "string \<Rightarrow> string list" where
  "parents p = parentsFrom [] p"

fun checkParents :: "fs \<Rightarrow> string list \<Rightarrow> errno option" where
  "checkParents f [] = None"
| "checkParents f (a # rest) =
     (if files f a \<noteq> None then Some ENOTDIR
      else if a \<notin> dirs f then Some ENOENT
      else if a \<in> denied f then Some EACCES
      else checkParents f rest)"

text \<open>
  \<open>fs.readFile\<close>: the ancestors are resolved first; then a regular file is read unless
  permission is missing, a directory gives \<open>EISDIR\<close>, and a path that does not exist
  gives \<open>ENOENT\<close>.
\<close>

definition readFile :: "fs \<Rightarrow> string \<Rightarrow> errno + string" where
  "readFile f p =
     (case checkParents f (parents p) of
        Some e \<Rightarrow> Inl e
      | None \<Rightarrow>
          (case files f p of
             Some content \<Rightarrow> if p \<in> denied f then Inl EACCES else Inr content
           | None \<Rightarrow> if p \<in> dirs f then Inl EISDIR else Inl ENOENT))"

text \<open>
  \<open>fs.mkdir(d, { recursive: true })\<close> goes through the ancestors of \<open>d\<close> and then
  \<open>d\<close> itself, creating each directory that is missing. An ancestor that is a regular
  file gives \<open>ENOTDIR\<close>, one without permission gives \<open>EACCES\<close>; \<open>d\<close> being a
  regular file gives \<open>EEXIST\<close>, and \<open>d\<close> being a directory already is no error.
\<close>

fun mkdirs :: "fs \<Rightarrow> string \<Rightarrow> string list \<Rightarrow> errno + fs" where
  "mkdirs f d [] = Inr f"
| "mkdirs f d (a # rest) =
     (if files f a \<noteq> None then Inl (if a = d then EEXIST else ENOTDIR)
      else if a \<noteq> d \<and> a \<in> denied f then Inl EACCES
      else mkdirs (f\<lparr>dirs := insert a (dirs f)\<rparr>) d rest)"

definition mkdir_recursive :: "fs \<Rightarrow> string \<Rightarrow> errno + fs" where
  "mkdir_recursive f d = mkdirs f d (parents d @ [d])"

text \<open>
  \<open>fs.writeFile\<close>: the ancestors are resolved first (all of them must be accessible
  directories); then a directory at the path gives \<open>EISDIR\<close>, missing permission gives
  \<open>EACCES\<close>, and otherwise the file is created or overwritten.
\<close>

definition writeFile :: "fs \<Rightarrow> string \<Rightarrow> string \<Rightarrow> errno + fs" where
  "writeFile f p content =
     (case checkParents f (parents p) of
        Some e \<Rightarrow> Inl e
      | None \<Rightarrow>
          if p \<in> dirs f then Inl EISDIR
          else if p \<in> denied f then Inl EACCES
          else Inr (f\<lparr>files := (files f)(p \<mapsto> content)\<rparr>))"

section \<open>Selection memory (src/cli/state.ts)\<close>

text \<open>
  A \<open>StateMap\<close> is a record from string keys to JSON values. \<open>JSON.parse\<close> and
  \<open>JSON.stringify\<close> belong to the runtime and are parameters: \<open>parse\<close> returns
  \<open>None\<close> where \<open>JSON.parse\<close> throws its \<open>SyntaxError\<close>.
\<close>

type_synonym StateMap = "string \<rightharpoonup> json"

definition STATE_FILE :: string where
  "STATE_FILE = ''cli-state.json''"

definition loadState :: "(string \<Rightarrow> StateMap option) \<Rightarrow> fs \<Rightarrow> string \<Rightarrow> error + StateMap" where
  "loadState parse f storagePath =
     (let statePath = path_join storagePath STATE_FILE in
      case readFile f statePath of
        Inl e \<Rightarrow> (if e = ENOENT then Inr Map.empty else Inl (FsError e))
      | Inr content \<Rightarrow>
          (case parse content of
             None \<Rightarrow> Inl SyntaxError
           | Some st \<Rightarrow> Inr st))"

definition saveState :: "(StateMap \<Rightarrow> string) \<Rightarrow> fs \<Rightarrow> string \<Rightarrow> StateMap \<Rightarrow> error + fs" where
  "saveState stringify f storagePath st =
     (let statePath = path_join storagePath STATE_FILE in
      case mkdir_recursive f (path_dirname statePath) of
        Inl e \<Rightarrow> Inl (FsError e)
      | Inr f1 \<Rightarrow>
          (case writeFile f1 statePath (stringify st) of
             Inl e \<Rightarrow> Inl (FsError e)
           | Inr f2 \<Rightarrow> Inr f2))"

definition getRememberedValue :: "StateMap \<Rightarrow> string \<Rightarrow> json option" where
  "getRememberedValue st k = st k"

definition setRememberedValue :: "StateMap \<Rightarrow> string \<Rightarrow> json \<Rightarrow> StateMap" where
  "setRememberedValue st k v = st(k \<mapsto> v)"

definition removeRememberedValue :: "StateMap \<Rightarrow> string \<Rightarrow> StateMap" where
  "removeRememberedValue st k = st(k := None)"

definition setAll :: "StateMap \<Rightarrow> (string \<times> json) list \<Rightarrow> StateMap" where
  "setAll st kvs = foldl (\<lambda>s kv. setRememberedValue s (fst kv) (snd kv)) st kvs"

section \<open>The runtime context (src/cli/context.ts)\<close>

text \<open>
  The fields of \<open>CliRuntimeContext\<close> that selection memory uses. \<open>fzfRuns\<close> is not a
  field of the class: it counts the picker processes spawned so far, so that "the picker
  was not invoked" can be stated. \<open>create\<close> takes the storage path already resolved.
\<close>

record ctx =
  storagePath :: string
  persistentState :: StateMap
  stateDirty :: bool
  fzfRuns :: nat

definition create :: "(string \<Rightarrow> StateMap option) \<Rightarrow> fs \<Rightarrow> string \<Rightarrow> error + ctx" where
  "create parse f sp =
     (case loadState parse f sp of
        Inl e \<Rightarrow> Inl e
      | Inr st \<Rightarrow> Inr \<lparr>storagePath = sp, persistentState = st, stateDirty = False, fzfRuns = 0\<rparr>)"

definition savePersistentState :: "(StateMap \<Rightarrow> string) \<Rightarrow> fs \<Rightarrow> ctx \<Rightarrow> (error + fs) \<times> ctx" where
  "savePersistentState stringify f c =
     (if stateDirty c then
        (case saveState stringify f (storagePath c) (persistentState c) of
           Inl e \<Rightarrow> (Inl e, c)
         | Inr f' \<Rightarrow> (Inr f', c\<lparr>stateDirty := False\<rparr>))
      else (Inr f, c))"

definition ctxGetRememberedValue :: "ctx \<Rightarrow> string \<Rightarrow> json option" where
  "ctxGetRememberedValue c k = getRememberedValue (persistentState c) k"

definition ctxSetRememberedValue :: "string \<Rightarrow> json \<Rightarrow> ctx \<Rightarrow> ctx" where
  "ctxSetRememberedValue k v c =
     c\<lparr>persistentState := setRememberedValue (persistentState c) k v, stateDirty := True\<rparr>"

section \<open>The interactive picker (src/cli/fzf.ts)\<close>

text \<open>
  \<open>fzfPick\<close> spawns the external \<open>fzf\<close> process only for two or more items. What the
  process does is a parameter: a function from the prompt and the labels to an outcome
  (binary missing, another spawn error, non-zero exit, output that holds no index, or
  the index printed).
\<close>

datatype fzfOutcome =
    FzfNotInstalled
  | FzfSpawnFailed
  | FzfExitNonZero
  | FzfNoIndex
  | FzfIndex nat

type_synonym fzf = "string \<Rightarrow> string list \<Rightarrow> fzfOutcome"

definition fzfPick :: "fzf \<Rightarrow> string \<Rightarrow> (string \<times> 'a) list \<Rightarrow> ctx \<Rightarrow> (error + 'a) \<times> ctx" where
  "fzfPick run prompt items c =
     (case items of
        [] \<Rightarrow> (Inl (ExtensionError ''No items available for selection''), c)
      | [item] \<Rightarrow> (Inr (snd item), c)
      | _ # _ # _ \<Rightarrow>
          (let c' = c\<lparr>fzfRuns := Suc (fzfRuns c)\<rparr> in
           case run prompt (map fst items) of
             FzfNotInstalled \<Rightarrow>
               (Inl (ExtensionError
                  ''fzf is required but not installed. Install it with `brew install fzf` and try again.''), c')
           | FzfSpawnFailed \<Rightarrow> (Inl SpawnError, c')
           | FzfExitNonZero \<Rightarrow> (Inl (ExtensionError ''Selection cancelled''), c')
           | FzfNoIndex \<Rightarrow> (Inl (ExtensionError ''Failed to parse fzf selection''), c')
           | FzfIndex i \<Rightarrow>
               (if i < length items then (Inr (snd (items ! i)), c')
                else (Inl (ExtensionError ''Failed to parse fzf selection''), c'))))"

section \<open>Destinations\<close>

text \<open>
  The destination classes are declared outside the files at hand; the record has the
  fields this code reads. \<open>udid\<close> and \<open>name\<close> are optional because the code tests
  \<open>"udid" in d\<close> and \<open>"name" in d\<close>; the field \<open>id\<close> is called \<open>ident\<close>.
\<close>

datatype destinationType =
    macOS
  | iOSSimulator | watchOSSimulator | tvOSSimulator | visionOSSimulator
  | iOSDevice | watchOSDevice | tvOSDevice | visionOSDevice

record destination =
  dtype :: destinationType
  ident :: string
  label :: string
  name :: "string option"
  udid :: "string option"
  quickPickDetails :: "string option"

definition formatDestinationLabel :: "destination \<Rightarrow> string" where
  "formatDestinationLabel d =
     label d @ (case quickPickDetails d of
                  None \<Rightarrow> []
                | Some q \<Rightarrow> if q \<noteq> [] then '' - '' @ q else [])"

section \<open>Pickers (src/cli/pickers.ts)\<close>

text \<open>
  The lists of schemes, configurations, workspace paths and the partition of the
  destinations come from helpers outside the files at hand, so each picker takes the
  result of the helper call it makes. Schemes and configurations are objects with a
  \<open>name\<close>; the lists hold the names.
\<close>

definition DEFAULT_DEBUG_CONFIGURATION :: string where
  "DEFAULT_DEBUG_CONFIGURATION = ''Debug''"

definition DEFAULT_RELEASE_CONFIGURATION :: string where
  "DEFAULT_RELEASE_CONFIGURATION = ''Release''"

definition selfItems :: "string list \<Rightarrow> (string \<times> string) list" where
  "selfItems xs = map (\<lambda>x. (x, x)) xs"

definition pickScheme :: "fzf \<Rightarrow> string option \<Rightarrow> string list \<Rightarrow> ctx \<Rightarrow> (error + string) \<times> ctx" where
  "pickScheme run prompt schemes c =
     (case schemes of
        [] \<Rightarrow> (Inl (ExtensionError ''No schemes found''), c)
      | [s] \<Rightarrow> (Inr s, c)
      | _ # _ # _ \<Rightarrow>
          fzfPick run (case prompt of None \<Rightarrow> ''Select scheme'' | Some p \<Rightarrow> p) (selfItems schemes) c)"

definition debugReleasePair :: "string list \<Rightarrow> bool" where
  "debugReleasePair configurations =
     (length configurations = 2
      \<and> DEFAULT_DEBUG_CONFIGURATION \<in> set configurations
      \<and> DEFAULT_RELEASE_CONFIGURATION \<in> set configurations)"

definition pickConfiguration :: "fzf \<Rightarrow> string list \<Rightarrow> ctx \<Rightarrow> (error + string) \<times> ctx" where
  "pickConfiguration run configurations c =
     (case configurations of
        [] \<Rightarrow> (Inr DEFAULT_DEBUG_CONFIGURATION, c)
      | [x] \<Rightarrow> (Inr x, c)
      | _ # _ # _ \<Rightarrow>
          (if debugReleasePair configurations then (Inr DEFAULT_DEBUG_CONFIGURATION, c)
           else fzfPick run ''Select configuration'' (selfItems configurations) c))"

definition pathDepth :: "string \<Rightarrow> nat" where
  "pathDepth p = length (split_on (CHR ''/'') p)"

definition pickXcodeWorkspacePath :: "fzf \<Rightarrow> string \<Rightarrow> string list \<Rightarrow> ctx \<Rightarrow> (error + string) \<times> ctx" where
  "pickXcodeWorkspacePath run workspacePath paths c =
     (case paths of
        [] \<Rightarrow> (Inl (ExtensionError ''No xcode workspaces found''), c)
      | [p] \<Rightarrow> (Inr p, c)
      | _ # _ # _ \<Rightarrow>
          fzfPick run ''Select xcode workspace''
            (map (\<lambda>xcPath. (path_relative workspacePath xcPath, xcPath)) (sort_key pathDepth paths)) c)"

text \<open>The items \<open>pickDestination\<close> offers: the supported destinations, then the others.\<close>

definition destinationItems ::
  "destination list \<times> destination list \<Rightarrow> (string \<times> destination) list" where
  "destinationItems split =
     map (\<lambda>d. (formatDestinationLabel d, d)) (fst split)
     @ map (\<lambda>d. (formatDestinationLabel d @ '' [unsupported]'', d)) (snd split)"

definition pickDestination ::
  "fzf \<Rightarrow> destination list \<times> destination list \<Rightarrow> ctx \<Rightarrow> (error + destination) \<times> ctx" where
  "pickDestination run split c =
     (let supported = fst split; unsupported = snd split in
      if supported = [] \<and> unsupported = [] then
        (Inl (ExtensionError ''No destinations found''), c)
      else
        fzfPick run ''Select destination'' (destinationItems split) c)"

text \<open>
  \<open>remembered && xs.find((x) => x.name === remembered)\<close>: the remembered value must be
  truthy, and \<open>===\<close> holds only for a string equal to the name.
\<close>

definition findRemembered :: "json option \<Rightarrow> string list \<Rightarrow> string option" where
  "findRemembered remembered names =
     (case remembered of
        None \<Rightarrow> None
      | Some j \<Rightarrow> if truthy j then find (\<lambda>n. JStr n = j) names else None)"

definition rememberAfter :: "string \<Rightarrow> ('a \<Rightarrow> json) \<Rightarrow> (error + 'a) \<times> ctx \<Rightarrow> (error + 'a) \<times> ctx" where
  "rememberAfter k toJson r =
     (case fst r of
        Inl e \<Rightarrow> (Inl e, snd r)
      | Inr selected \<Rightarrow> (Inr selected, ctxSetRememberedValue k (toJson selected) (snd r)))"

text \<open>
  Each smart picker takes two helper results: the one of its own call and the one of the
  call made again inside the plain picker it falls back to.
\<close>

definition pickSchemeSmart ::
  "fzf \<Rightarrow> string option \<Rightarrow> string list \<Rightarrow> string list \<Rightarrow> ctx \<Rightarrow> (error + string) \<times> ctx" where
  "pickSchemeSmart run prompt schemes schemesAgain c =
     (let remembered = ctxGetRememberedValue c ''cli.scheme'' in
      if schemes = [] then (Inl (ExtensionError ''No schemes found''), c)
      else
        (case findRemembered remembered schemes of
           Some rememberedScheme \<Rightarrow> (Inr rememberedScheme, c)
         | None \<Rightarrow> rememberAfter ''cli.scheme'' JStr (pickScheme run prompt schemesAgain c)))"

definition pickConfigurationSmart ::
  "fzf \<Rightarrow> string list \<Rightarrow> string list \<Rightarrow> ctx \<Rightarrow> (error + string) \<times> ctx" where
  "pickConfigurationSmart run configurations configurationsAgain c =
     (let remembered = ctxGetRememberedValue c ''cli.configuration'' in
      case configurations of
        [] \<Rightarrow> (Inr DEFAULT_DEBUG_CONFIGURATION, c)
      | [x] \<Rightarrow> (Inr x, c)
      | _ # _ # _ \<Rightarrow>
          (if debugReleasePair configurations then (Inr DEFAULT_DEBUG_CONFIGURATION, c)
           else
             (case findRemembered remembered configurations of
                Some rememberedConfig \<Rightarrow> (Inr rememberedConfig, c)
              | None \<Rightarrow>
                  rememberAfter ''cli.configuration'' JStr
                    (pickConfiguration run configurationsAgain c))))"

definition pickXcodeWorkspacePathSmart ::
  "fzf \<Rightarrow> string \<Rightarrow> string list \<Rightarrow> string list \<Rightarrow> ctx \<Rightarrow> (error + string) \<times> ctx" where
  "pickXcodeWorkspacePathSmart run workspacePath paths pathsAgain c =
     (let remembered = ctxGetRememberedValue c ''cli.xcworkspace'' in
      if paths = [] then (Inl (ExtensionError ''No xcode workspaces found''), c)
      else
        (case findRemembered remembered paths of
           Some r \<Rightarrow> (Inr r, c)
         | None \<Rightarrow>
             (case paths of
                [p] \<Rightarrow> (Inr p, c)
              | _ \<Rightarrow>
                  rememberAfter ''cli.xcworkspace'' JStr
                    (pickXcodeWorkspacePath run workspacePath pathsAgain c))))"

text \<open>
  The remembered destination is the first one of \<open>[...supported, ...unsupported]\<close>
  whose \<open>udid\<close> or \<open>id\<close> is the remembered id, and it is returned when
  \<open>supported.includes\<close> it. \<open>includes\<close> compares object identity; as the first match
  of the concatenation lies in \<open>supported\<close> whenever any element of \<open>supported\<close>
  matches, membership by value gives the same answer.
\<close>

definition matchesRemembered :: "json \<Rightarrow> destination \<Rightarrow> bool" where
  "matchesRemembered rememberedId d =
     (case udid d of
        Some u \<Rightarrow> JStr u = rememberedId \<or> JStr (ident d) = rememberedId
      | None \<Rightarrow> JStr (ident d) = rememberedId)"

definition rememberedSupported ::
  "json option \<Rightarrow> destination list \<Rightarrow> destination list \<Rightarrow> destination option" where
  "rememberedSupported rememberedId supported unsupported =
     (case rememberedId of
        None \<Rightarrow> None
      | Some j \<Rightarrow>
          if truthy j then
            (case find (matchesRemembered j) (supported @ unsupported) of
               None \<Rightarrow> None
             | Some rememberedDestination \<Rightarrow>
                 if rememberedDestination \<in> set supported then Some rememberedDestination else None)
          else None)"

definition pickDestinationSmart ::
  "fzf \<Rightarrow> destination list \<times> destination list \<Rightarrow> destination list \<times> destination list
     \<Rightarrow> ctx \<Rightarrow> (error + destination) \<times> ctx" where
  "pickDestinationSmart run split splitAgain c =
     (let rememberedId = ctxGetRememberedValue c ''cli.destination.id'';
          supported = fst split; unsupported = snd split in
      if supported = [] \<and> unsupported = [] then
        (Inl (ExtensionError ''No destinations found''), c)
      else
        (case rememberedSupported rememberedId supported unsupported of
           Some rememberedDestination \<Rightarrow> (Inr rememberedDestination, c)
         | None \<Rightarrow>
             rememberAfter ''cli.destination.id'' (\<lambda>d. JStr (ident d))
               (pickDestination run splitAgain c)))"

section \<open>Resolution of explicit values (src/cli/index.ts)\<close>

definition getCliConfig :: "(string \<rightharpoonup> json) \<Rightarrow> string \<Rightarrow> json option" where
  "getCliConfig config k = config k"

text \<open>
  \<open>options.xcworkspace ?? configPath\<close>, then \<open>if (rawPath)\<close>. A truthy value that is
  not a string makes \<open>path.isAbsolute\<close> throw a \<open>TypeError\<close>.
\<close>

definition resolveXcworkspace ::
  "fzf \<Rightarrow> string option \<Rightarrow> string \<Rightarrow> (string \<rightharpoonup> json) \<Rightarrow> string list \<Rightarrow> string list \<Rightarrow> ctx
     \<Rightarrow> (error + string) \<times> ctx" where
  "resolveXcworkspace run optXcworkspace workspacePath config paths pathsAgain c =
     (let configPath = getCliConfig config ''build.xcodeWorkspacePath'';
          rawPath = (case optXcworkspace of Some s \<Rightarrow> Some (JStr s) | None \<Rightarrow> configPath);
          smart = pickXcodeWorkspacePathSmart run workspacePath paths pathsAgain c in
      case rawPath of
        None \<Rightarrow> smart
      | Some j \<Rightarrow>
          if truthy j then
            (case j of
               JStr s \<Rightarrow> (Inr (if path_isAbsolute s then s else path_join workspacePath s), c)
             | _ \<Rightarrow> (Inl TypeError, c))
          else smart)"

definition matchDestinationId :: "destination \<Rightarrow> string \<Rightarrow> bool" where
  "matchDestinationId d i =
     (let normalized = toLowerCase (trim i) in
      case udid d of
        Some u \<Rightarrow> toLowerCase u = normalized \<or> toLowerCase (ident d) = normalized
      | None \<Rightarrow> toLowerCase (ident d) = normalized)"

definition matchDestinationName :: "destination \<Rightarrow> string \<Rightarrow> bool" where
  "matchDestinationName d n =
     (let normalized = toLowerCase (trim n) in
      if normalized = [] then False
      else
        (let lbl = toLowerCase (label d);
             destName = (case name d of Some m \<Rightarrow> toLowerCase m | None \<Rightarrow> lbl) in
         includesStr lbl normalized \<or> includesStr destName normalized
         \<or> includesStr (toLowerCase (ident d)) normalized))"

text \<open>
  \<open>destinations\<close> is the result of the \<open>listDestinations\<close> call of
  \<open>resolveDestination\<close> itself; the two partitions are the ones computed inside
  \<open>pickDestinationSmart\<close> and \<open>pickDestination\<close>.
\<close>

definition resolveDestination ::
  "fzf \<Rightarrow> string option \<Rightarrow> string option \<Rightarrow> destination list
     \<Rightarrow> destination list \<times> destination list \<Rightarrow> destination list \<times> destination list
     \<Rightarrow> ctx \<Rightarrow> (error + destination) \<times> ctx" where
  "resolveDestination run destinationId destinationName destinations split splitAgain c =
     (if \<not> truthyStr destinationId \<and> \<not> truthyStr destinationName then
        pickDestinationSmart run split splitAgain c
      else if truthyStr destinationId then
        (let i = (case destinationId of Some x \<Rightarrow> x | None \<Rightarrow> []) in
         case find (\<lambda>item. matchDestinationId item i) destinations of
           None \<Rightarrow> (Inl (ExtensionError (''Destination not found for id: '' @ i)), c)
         | Some d \<Rightarrow> (Inr d, c))
      else
        (let n = (case destinationName of Some x \<Rightarrow> x | None \<Rightarrow> []) in
         case filter (\<lambda>item. matchDestinationName item n) destinations of
           [] \<Rightarrow> (Inl (ExtensionError (''Destination not found for name: '' @ n)), c)
         | [m] \<Rightarrow> (Inr m, c)
         | _ # _ # _ \<Rightarrow> pickDestinationSmart run split splitAgain c))"

section \<open>Configuration loading (src/cli/config.ts)\<close>

definition envKeyForConfigKey :: "string \<Rightarrow> string" where
  "envKeyForConfigKey k =
     ''SWEETPAD_'' @ map (\<lambda>c. if c = CHR ''.'' then CHR ''_'' else c) (toUpperCase k)"

text \<open>\<open>jsonParse\<close> is the runtime's \<open>JSON.parse\<close>, \<open>None\<close> where it throws.\<close>

definition parseEnvValue :: "(string \<Rightarrow> json option) \<Rightarrow> string \<Rightarrow> json" where
  "parseEnvValue jsonParse raw =
     (let trimmed = trim raw in
      if trimmed = ''true'' then JBool True
      else if trimmed = ''false'' then JBool False
      else if startsWith trimmed ''{'' \<or> startsWith trimmed ''['' then
        (case jsonParse trimmed of Some j \<Rightarrow> j | None \<Rightarrow> JStr trimmed)
      else JStr trimmed)"

text \<open>
  The settings object is the list of its entries, in the order of \<open>Object.entries\<close>.
  \<open>extractSweetpadConfig\<close> returns the new object as the list of the entries it wrote.
\<close>

fun extractSweetpadConfig :: "(string \<times> json) list \<Rightarrow> (string \<times> json) list" where
  "extractSweetpadConfig [] = []"
| "extractSweetpadConfig ((k, v) # rest) =
     (if \<not> startsWith k ''sweetpad.'' then extractSweetpadConfig rest
      else (drop (length ''sweetpad.'') k, v) # extractSweetpadConfig rest)"

definition assignAll :: "(string \<rightharpoonup> json) \<Rightarrow> (string \<times> json) list \<Rightarrow> (string \<rightharpoonup> json)" where
  "assignAll config entries = foldl (\<lambda>m kv. m(fst kv \<mapsto> snd kv)) config entries"

definition builtinKeys :: "string list" where
  "builtinKeys =
     [''build.configuration'', ''build.arch'', ''build.args'', ''build.env'',
      ''build.launchArgs'', ''build.launchEnv'', ''build.rosettaDestination'',
      ''build.allowProvisioningUpdates'', ''build.xcbeautifyEnabled'',
      ''build.derivedDataPath'', ''build.xcodeWorkspacePath'',
      ''build.bringSimulatorToForeground'', ''xcodebuildserver.autogenerate'',
      ''xcodebuildserver.path'', ''system.customXcodeWorkspaceParser'']"

text \<open>
  \<open>new Set([...Object.keys(config), ...])\<close>, iterated in insertion order: the keys of
  the extracted configuration, then the built-in keys, each once.
\<close>

definition knownKeys :: "(string \<times> json) list \<Rightarrow> string list" where
  "knownKeys extracted = filterSeen (\<lambda>k. k) {} (map fst extracted @ builtinKeys)"

definition applyEnv ::
  "(string \<Rightarrow> json option) \<Rightarrow> (string \<rightharpoonup> string) \<Rightarrow> (string \<rightharpoonup> json) \<Rightarrow> string \<Rightarrow> (string \<rightharpoonup> json)" where
  "applyEnv jsonParse env config k =
     (case env (envKeyForConfigKey k) of
        None \<Rightarrow> config
      | Some envValue \<Rightarrow> config(k \<mapsto> parseEnvValue jsonParse envValue))"

text \<open>
  The settings file is \<open>None\<close> when \<open>isFileExists\<close> answers no, \<open>Some (Inl e)\<close> when
  \<open>readJsonFile\<close> throws, and \<open>Some (Inr entries)\<close> otherwise. \<open>env\<close> is
  \<open>process.env\<close>.
\<close>

definition loadCliConfig ::
  "(string \<Rightarrow> json option) \<Rightarrow> (string \<rightharpoonup> string) \<Rightarrow> (error + (string \<times> json) list) option
     \<Rightarrow> error + (string \<rightharpoonup> json)" where
  "loadCliConfig jsonParse env settingsFile =
     (case settingsFile of
        Some (Inl e) \<Rightarrow> Inl e
      | Some (Inr settings) \<Rightarrow>
          (let extracted = extractSweetpadConfig settings;
               config = assignAll Map.empty extracted in
           Inr (foldl (applyEnv jsonParse env) config (knownKeys extracted)))
      | None \<Rightarrow>
          Inr (foldl (applyEnv jsonParse env) Map.empty (knownKeys [])))"

definition settingsEntries :: "(error + (string \<times> json) list) option \<Rightarrow> (string \<times> json) list" where
  "settingsEntries settingsFile =
     (case settingsFile of Some (Inr settings) \<Rightarrow> settings | _ \<Rightarrow> [])"

section \<open>Concrete inputs\<close>

text \<open>
  Inputs at which the theorems below are evaluated: a picker process that prints a fixed
  index, a context with a given remembered state, three destinations, remembered states
  naming one of them, file systems (empty, with the storage directory in place, with a
  regular file where the storage directory should be), a codec for state files that hold
  nothing but a non-empty scheme together with the set of these states, a
  \<open>JSON.parse\<close> that always throws, two environments, and build options with an
  architecture override, debug mode and no additional arguments.
\<close>

definition chooseIndex :: "nat \<Rightarrow> fzf" where
  "chooseIndex i prompt labels = FzfIndex i"

definition noState :: StateMap where
  "noState = Map.empty"

definition freshCtx :: "StateMap \<Rightarrow> ctx" where
  "freshCtx st =
     \<lparr>storagePath = ''/work/.sweetpad'', persistentState = st, stateDirty = False, fzfRuns = 0\<rparr>"

definition myMac :: destination where
  "myMac = \<lparr>dtype = macOS, ident = ''macos'', label = ''My Mac'', name = Some ''My Mac'',
            udid = None, quickPickDetails = None\<rparr>"

definition iPhone15 :: destination where
  "iPhone15 = \<lparr>dtype = iOSSimulator, ident = ''ABC-123'', label = ''iPhone 15'',
               name = Some ''iPhone 15'', udid = Some ''ABC-123'', quickPickDetails = None\<rparr>"

definition iPhone15Pro :: destination where
  "iPhone15Pro = \<lparr>dtype = iOSSimulator, ident = ''DEF-456'', label = ''iPhone 15 Pro'',
                  name = Some ''iPhone 15 Pro'', udid = Some ''DEF-456'', quickPickDetails = None\<rparr>"



definition emptyFs :: fs where
  "emptyFs = \<lparr>files = Map.empty, dirs = {}, denied = {}\<rparr>"

definition storageFs :: fs where
  "storageFs = \<lparr>files = Map.empty, dirs = {''/work'', ''/work/.sweetpad''}, denied = {}\<rparr>"

definition blockedFs :: fs where
  "blockedFs = \<lparr>files = Map.empty(''/work/.sweetpad'' \<mapsto> ''not a directory''),
                dirs = {''/work''}, denied = {}\<rparr>"

definition schemeState :: "string \<Rightarrow> StateMap" where
  "schemeState x = Map.empty(''cli.scheme'' \<mapsto> JStr x)"

definition schemeStates :: "StateMap set" where
  "schemeStates = schemeState ` {x. x \<noteq> []}"

definition schemeStringify :: "StateMap \<Rightarrow> string" where
  "schemeStringify st = (case st ''cli.scheme'' of Some (JStr s) \<Rightarrow> s | _ \<Rightarrow> [])"

definition schemeParse :: "string \<Rightarrow> StateMap option" where
  "schemeParse content =
     (if content = [] then None else Some (Map.empty(''cli.scheme'' \<mapsto> JStr content)))"

definition noJsonParse :: "string \<Rightarrow> json option" where
  "noJsonParse s = None"

definition sampleEnv :: "string \<rightharpoonup> string" where
  "sampleEnv = Map.empty(''SWEETPAD_FOO_BAR'' \<mapsto> ''x'', ''SWEETPAD_BUILD_ARCH'' \<mapsto> '' arm64 '')"

definition sampleEnvWithout :: "string \<rightharpoonup> string" where
  "sampleEnvWithout = Map.empty(''SWEETPAD_BUILD_ARCH'' \<mapsto> '' arm64 '')"

definition debugArchOptions :: buildOptions where
  "debugArchOptions =
     \<lparr>scheme = ''MyApp'', configuration = ''Debug'', xcworkspace = ''App.xcworkspace'',
      destinationRaw = ''platform=macOS,arch=arm64'', debug = True,
      shouldBuild = True, shouldClean = False, shouldTest = False,
      arch = Some ''arm64'', bundlePath = ''/work/.sweetpad/bundle/MyApp'',
      derivedDataPath = None, allowProvisioningUpdates = True, additionalArgs = []\<rparr>"

section \<open>Facts about splitting and deduplication\<close>


lemma split_on_nonempty: "split_on c s \<noteq> []"
  by (induction s) (auto split: list.splits)

lemma split_on_two_pieces: "c \<in> set s \<Longrightarrow> \<exists>a v rest. split_on c s = a # v # rest"
proof (induction s)
  case Nil
  then show ?case by simp
next
  case (Cons x xs)
  show ?case
  proof (cases "x = c")
    case True
    obtain p ps where "split_on c xs = p # ps"
      using split_on_nonempty [of c xs] by (cases "split_on c xs") auto
    with True show ?thesis by simp
  next
    case False
    with Cons.prems have "c \<in> set xs" by auto
    then obtain a v rest where "split_on c xs = a # v # rest"
      using Cons.IH by blast
    with False show ?thesis by simp
  qed
qed

lemma filterSeen_append:
  "filterSeen f S (ys @ zs) = filterSeen f S ys @ filterSeen f (S \<union> f ` set ys) zs"
proof (induction ys arbitrary: S)
  case Nil
  show ?case by simp
next
  case (Cons y ys)
  show ?case
  proof (cases "f y \<in> S")
    case True
    then have "S \<union> f ` set (y # ys) = S \<union> f ` set ys" by auto
    with True Cons.IH [of S] show ?thesis by simp
  next
    case False
    have "insert (f y) S \<union> f ` set ys = S \<union> f ` set (y # ys)" by auto
    with False Cons.IH [of "insert (f y) S"] show ?thesis by simp
  qed
qed

lemma rev_filterSeen_rev: "rev (filterSeen f {} (rev xs)) = keepLast f xs"
proof (induction xs)
  case Nil
  show ?case by simp
next
  case (Cons x xs)
  have "filterSeen f {} (rev (x # xs)) =
          filterSeen f {} (rev xs) @ filterSeen f (f ` set xs) [x]"
    by (simp add: filterSeen_append)
  with Cons.IH show ?case by simp
qed

lemma filterSeen_keepFirst: "filterSeen f {} xs = keepFirst f xs"
proof -
  have "rev (rev (filterSeen f {} (rev (rev xs)))) = rev (keepLast f (rev xs))"
    by (simp only: rev_filterSeen_rev)
  then show ?thesis by (simp add: keepFirst_def)
qed

lemma keepLast_keys: "f ` set (keepLast f xs) = f ` set xs"
  by (induction xs) auto

lemma keepLast_distinct: "distinct (map f (keepLast f xs))"
proof (induction xs)
  case Nil
  show ?case by simp
next
  case (Cons x xs)
  then show ?case using keepLast_keys [of f xs] by auto
qed

lemma keepFirst_distinct: "distinct (map f (keepFirst f xs))"
  using keepLast_distinct [of f "rev xs"] by (simp add: keepFirst_def rev_map [symmetric])

lemma keepLast_map_of:
  "map_of (map (\<lambda>x. (f x, g x)) (keepLast f xs)) k = map_of (rev (map (\<lambda>x. (f x, g x)) xs)) k"
proof (induction xs)
  case Nil
  show ?case by simp
next
  case (Cons x xs)
  show ?case
  proof (cases "f x \<in> f ` set xs")
    case True
    then have "f x \<in> fst ` set (rev (map (\<lambda>x. (f x, g x)) xs))" by force
    then have "map_of (rev (map (\<lambda>x. (f x, g x)) xs)) (f x) \<noteq> None"
      by (simp add: map_of_eq_None_iff)
    with True Cons.IH show ?thesis by (auto simp: map_add_def split: option.splits)
  next
    case False
    then have "f x \<notin> fst ` set (rev (map (\<lambda>x. (f x, g x)) xs))" by force
    then have "map_of (rev (map (\<lambda>x. (f x, g x)) xs)) (f x) = None"
      by (simp add: map_of_eq_None_iff)
    with False Cons.IH show ?thesis by (auto simp: map_add_def split: option.splits)
  qed
qed

lemma classifySingle_prefix:
  "prefix (buildSettings b) (buildSettings (classifySingle t b))
   \<and> prefix (parameters b) (parameters (classifySingle t b))
   \<and> prefix (actions b) (actions (classifySingle t b))"
  by (simp add: classifySingle_def split: list.splits)

lemma scanArgs_prefix:
  "prefix (buildSettings b) (buildSettings (scanArgs ts b))
   \<and> prefix (parameters b) (parameters (scanArgs ts b))
   \<and> prefix (actions b) (actions (scanArgs ts b))"
proof (induction ts b rule: scanArgs.induct)
  case (1 b)
  show ?case by simp
next
  case (2 current b)
  show ?case using classifySingle_prefix [of b current] by simp
next
  case (3 current nxt rest b)
  show ?case
  proof (cases "current \<noteq> [] \<and> nxt \<noteq> [] \<and> startsWith current ''-'' \<and> \<not> startsWith nxt ''-''")
    case True
    with "3.IH"(1) show ?thesis by (auto dest: append_prefixD)
  next
    case False
    with "3.IH"(2) classifySingle_prefix [of b current] show ?thesis
      by (auto intro: prefix_order.trans)
  qed
qed

section \<open>Command assembly\<close>

text \<open>
  Claim C1, as the specification states it: a key declared more than once appears once,
  valued from its last declaration and standing where its first declaration was. The
  code differs on the position: with build settings \<open>A=1\<close>, \<open>B=2\<close>, \<open>A=3\<close> declared in
  this order and the token \<open>clean\<close> merged, the built vector has \<open>A=3\<close> after \<open>B=2\<close>,
  where the specification's wording puts it before.
\<close>

theorem redeclared_setting_not_at_first_position:
  "build (addAdditionalArgs [''clean'']
       (addBuildSettings ''A'' ''3'' (addBuildSettings ''B'' ''2'' (addBuildSettings ''A'' ''1'' newBuilder))))
     = [''xcodebuild'', ''B=2'', ''A=3'', ''clean'']
   \<and> build (specAddAdditionalArgs [''clean'']
       (addBuildSettings ''A'' ''3'' (addBuildSettings ''B'' ''2'' (addBuildSettings ''A'' ''1'' newBuilder))))
     = [''xcodebuild'', ''A=3'', ''B=2'', ''clean'']"
  by (simp add: addAdditionalArgs_def specAddAdditionalArgs_def dedupAll_def classifySingle_def
        startsWith_def addBuildSettings_def newBuilder_def build_def renderSetting_def xcodebuild_def)

text \<open>
  Claim C1, amended: when a non-empty list of additional tokens is merged into a builder,
  the declarations made before stay in front of the ones the tokens add, and then within
  build settings and within parameters every key keeps exactly one entry, namely its last
  declaration, standing where that last declaration stands among the survivors; every
  action verb keeps its first occurrence. Looking a key up in the result gives the value
  of its last declaration, and the built vector is the rendering of these lists.
\<close>

theorem addAdditionalArgs_keeps_last_in_place:
  assumes "args \<noteq> []"
  shows "(let m = scanArgs args b; r = addAdditionalArgs args b in
          prefix (buildSettings b) (buildSettings m)
        \<and> prefix (parameters b) (parameters m)
        \<and> prefix (actions b) (actions m)
        \<and> buildSettings r = keepLast key (buildSettings m)
        \<and> parameters r = keepLast arg (parameters m)
        \<and> actions r = keepFirst (\<lambda>a. a) (actions m)
        \<and> distinct (map key (buildSettings r))
        \<and> distinct (map arg (parameters r))
        \<and> distinct (actions r)
        \<and> map_of (map (\<lambda>s. (key s, svalue s)) (buildSettings r))
            = map_of (rev (map (\<lambda>s. (key s, svalue s)) (buildSettings m)))
        \<and> map_of (map (\<lambda>p. (arg p, pvalue p)) (parameters r))
            = map_of (rev (map (\<lambda>p. (arg p, pvalue p)) (parameters m)))
        \<and> build r = xcodebuild # map renderSetting (keepLast key (buildSettings m))
            @ concat (map renderParameter (keepLast arg (parameters m)))
            @ keepFirst (\<lambda>a. a) (actions m))"
proof -
  define m where "m = scanArgs args b"
  define r where "r = addAdditionalArgs args b"
  have r: "r = dedupAll m" using assms by (simp add: r_def m_def addAdditionalArgs_def)
  have s: "buildSettings r = keepLast key (buildSettings m)"
    by (simp add: r dedupAll_def rev_filterSeen_rev)
  have p: "parameters r = keepLast arg (parameters m)"
    by (simp add: r dedupAll_def rev_filterSeen_rev)
  have a: "actions r = keepFirst (\<lambda>a. a) (actions m)"
    by (simp add: r dedupAll_def filterSeen_keepFirst)
  have ds: "distinct (map key (buildSettings r))" by (simp add: s keepLast_distinct)
  have dp: "distinct (map arg (parameters r))" by (simp add: p keepLast_distinct)
  have da: "distinct (actions r)"
    using keepFirst_distinct [of "\<lambda>a. a" "actions m"] by (simp add: a)
  have ms: "map_of (map (\<lambda>s. (key s, svalue s)) (buildSettings r))
            = map_of (rev (map (\<lambda>s. (key s, svalue s)) (buildSettings m)))"
    unfolding s by (rule ext) (rule keepLast_map_of)
  have mp: "map_of (map (\<lambda>p. (arg p, pvalue p)) (parameters r))
            = map_of (rev (map (\<lambda>p. (arg p, pvalue p)) (parameters m)))"
    unfolding p by (rule ext) (rule keepLast_map_of)
  have bl: "build r = xcodebuild # map renderSetting (keepLast key (buildSettings m))
            @ concat (map renderParameter (keepLast arg (parameters m)))
            @ keepFirst (\<lambda>a. a) (actions m)"
    by (simp add: build_def s p a)
  have pre: "prefix (buildSettings b) (buildSettings m)
        \<and> prefix (parameters b) (parameters m)
        \<and> prefix (actions b) (actions m)"
    unfolding m_def by (rule scanArgs_prefix)
  from pre s p a ds dp da ms mp bl show ?thesis
    unfolding Let_def m_def [symmetric] r_def [symmetric] by blast
qed

theorem addAdditionalArgs_keeps_last_in_place_witness:
  "[''clean''] \<noteq> ([] :: string list)
   \<and> buildSettings (addAdditionalArgs [''clean'']
        (addBuildSettings ''A'' ''3'' (addBuildSettings ''B'' ''2'' (addBuildSettings ''A'' ''1'' newBuilder))))
      = keepLast key [\<lparr>key = ''A'', svalue = ''1''\<rparr>, \<lparr>key = ''B'', svalue = ''2''\<rparr>,
                      \<lparr>key = ''A'', svalue = ''3''\<rparr>]
   \<and> keepLast key [\<lparr>key = ''A'', svalue = ''1''\<rparr>, \<lparr>key = ''B'', svalue = ''2''\<rparr>,
                    \<lparr>key = ''A'', svalue = ''3''\<rparr>]
      = [\<lparr>key = ''B'', svalue = ''2''\<rparr>, \<lparr>key = ''A'', svalue = ''3''\<rparr>]"
  using addAdditionalArgs_keeps_last_in_place [of "[''clean'']"
      "addBuildSettings ''A'' ''3'' (addBuildSettings ''B'' ''2'' (addBuildSettings ''A'' ''1'' newBuilder))"]
  by (simp add: Let_def classifySingle_def startsWith_def addBuildSettings_def newBuilder_def)

text \<open>
  Claim C5: after assembly, also with an empty additional-token list, no key occurs twice
  within a class. The code returns from \<open>addAdditionalArgs\<close> before deduplicating when
  the list is empty: with an architecture override and debug mode, \<open>buildApp\<close> declares
  \<open>ONLY_ACTIVE_ARCH\<close> twice and both declarations reach the command.
\<close>

theorem buildApp_empty_args_keeps_duplicate_setting:
  "map key (buildSettings (buildAppCommand debugArchOptions)) =
     [''ARCHS'', ''VALID_ARCHS'', ''ONLY_ACTIVE_ARCH'', ''GCC_GENERATE_DEBUGGING_SYMBOLS'',
      ''ONLY_ACTIVE_ARCH'']
   \<and> build (buildAppCommand debugArchOptions) =
     [''xcodebuild'', ''ARCHS=arm64'', ''VALID_ARCHS=arm64'', ''ONLY_ACTIVE_ARCH=NO'',
      ''GCC_GENERATE_DEBUGGING_SYMBOLS=YES'', ''ONLY_ACTIVE_ARCH=YES'',
      ''-scheme'', ''MyApp'', ''-configuration'', ''Debug'', ''-workspace'', ''App.xcworkspace'',
      ''-destination'', ''platform=macOS,arch=arm64'', ''-resultBundlePath'',
      ''/work/.sweetpad/bundle/MyApp'', ''-allowProvisioningUpdates'', ''build'']"
  by (simp add: buildAppCommand_def debugArchOptions_def whenB_def truthyStr_def addAdditionalArgs_def
        addBuildSettings_def addParameters_def addOption_def addAction_def newBuilder_def build_def
        renderSetting_def renderParameter_def NO_VALUE_def xcodebuild_def)

text \<open>
  Claim C8: a token holding \<open>=\<close> and not starting with \<open>-\<close> becomes a build setting
  whose value is everything after the first \<open>=\<close>. The code keeps the first two pieces
  of \<open>split("=")\<close>, so the token \<open>KEY=a=b\<close> yields the value \<open>a\<close>.
\<close>

theorem token_with_two_equals_loses_value_tail:
  "buildSettings (addAdditionalArgs [''KEY=a=b''] newBuilder) = [\<lparr>key = ''KEY'', svalue = ''a''\<rparr>]
   \<and> build (addAdditionalArgs [''KEY=a=b''] newBuilder) = [''xcodebuild'', ''KEY=a'']"
  by (simp add: addAdditionalArgs_def dedupAll_def classifySingle_def startsWith_def newBuilder_def
        build_def renderSetting_def xcodebuild_def)

section \<open>Smart resolution\<close>

lemma findRemembered_present:
  assumes "r \<noteq> []" and "r \<in> set names"
  shows "findRemembered (Some (JStr r)) names = Some r"
proof -
  obtain x where x: "find (\<lambda>n. JStr n = JStr r) names = Some x"
    using assms(2) by (cases "find (\<lambda>n. JStr n = JStr r) names") (auto simp: find_None_iff)
  then have "x = r" by (auto simp: find_Some_iff)
  with x assms(1) show ?thesis by (simp add: findRemembered_def)
qed

text \<open>
  The scheme and workspace pickers return a remembered value that is still available, and
  so does the configuration picker outside the Debug/Release pair; none of them spawns
  the picker process or writes to memory.
\<close>

lemma remembered_value_returned:
  assumes "r \<noteq> []" and "r \<in> set options"
  shows "ctxGetRememberedValue c ''cli.scheme'' = Some (JStr r)
           \<Longrightarrow> pickSchemeSmart run prompt options again c = (Inr r, c)"
    and "ctxGetRememberedValue c ''cli.xcworkspace'' = Some (JStr r)
           \<Longrightarrow> pickXcodeWorkspacePathSmart run root options again c = (Inr r, c)"
    and "ctxGetRememberedValue c ''cli.configuration'' = Some (JStr r)
           \<Longrightarrow> 2 \<le> length options \<Longrightarrow> \<not> debugReleasePair options
           \<Longrightarrow> pickConfigurationSmart run options again c = (Inr r, c)"
proof -
  have ne: "options \<noteq> []" using assms(2) by auto
  note f = findRemembered_present [OF assms]
  show "ctxGetRememberedValue c ''cli.scheme'' = Some (JStr r)
           \<Longrightarrow> pickSchemeSmart run prompt options again c = (Inr r, c)"
    using ne f by (simp add: pickSchemeSmart_def)
  show "ctxGetRememberedValue c ''cli.xcworkspace'' = Some (JStr r)
           \<Longrightarrow> pickXcodeWorkspacePathSmart run root options again c = (Inr r, c)"
    using ne f by (simp add: pickXcodeWorkspacePathSmart_def)
  show "ctxGetRememberedValue c ''cli.configuration'' = Some (JStr r)
           \<Longrightarrow> 2 \<le> length options \<Longrightarrow> \<not> debugReleasePair options
           \<Longrightarrow> pickConfigurationSmart run options again c = (Inr r, c)"
  proof -
    assume a: "ctxGetRememberedValue c ''cli.configuration'' = Some (JStr r)"
      and l: "2 \<le> length options" and d: "\<not> debugReleasePair options"
    from l obtain x y rest where "options = x # y # rest"
      by (cases options; cases "tl options") auto
    with a d f show ?thesis by (simp add: pickConfigurationSmart_def)
  qed
qed




text \<open>
  Claim C2: with more than one option and no explicit value, a remembered value that is
  among the available options is returned, the specification's example being
  configurations Debug and Release with Release remembered. The code tests the
  Debug/Release pair before it looks at the remembered value, and returns Debug.
\<close>

theorem remembered_release_resolves_to_debug:
  "pickConfigurationSmart run [''Debug'', ''Release''] again
     (freshCtx (Map.empty(''cli.configuration'' \<mapsto> JStr ''Release'')))
   = (Inr ''Debug'', freshCtx (Map.empty(''cli.configuration'' \<mapsto> JStr ''Release'')))"
  by (simp add: pickConfigurationSmart_def debugReleasePair_def DEFAULT_DEBUG_CONFIGURATION_def
        DEFAULT_RELEASE_CONFIGURATION_def)

text \<open>
  Claim C3, as the specification states it: with no available option, each of the four
  resolutions fails. The configuration picker does not: it returns the default
  configuration.
\<close>

theorem empty_configurations_resolve_to_debug:
  "fst (pickConfigurationSmart (chooseIndex 0) [] [] (freshCtx noState)) = Inr ''Debug''"
  by (simp add: pickConfigurationSmart_def DEFAULT_DEBUG_CONFIGURATION_def)

text \<open>
  Claim C3, amended: with no available option, the workspace, scheme and destination
  resolutions fail with an error and leave the context as it was; the configuration
  resolution returns the default configuration \<open>Debug\<close>, also leaving the context as it
  was.
\<close>

theorem empty_options_fail_except_configuration:
  "pickXcodeWorkspacePathSmart run workspacePath [] pathsAgain c
     = (Inl (ExtensionError ''No xcode workspaces found''), c)
   \<and> pickSchemeSmart run prompt [] schemesAgain c = (Inl (ExtensionError ''No schemes found''), c)
   \<and> pickDestinationSmart run ([], []) splitAgain c
     = (Inl (ExtensionError ''No destinations found''), c)
   \<and> pickConfigurationSmart run [] configurationsAgain c = (Inr DEFAULT_DEBUG_CONFIGURATION, c)"
  by (simp add: pickXcodeWorkspacePathSmart_def pickSchemeSmart_def pickDestinationSmart_def
        pickConfigurationSmart_def)






section \<open>Explicit values\<close>

text \<open>
  An explicit destination id, and an explicit workspace path, are resolved without
  touching the context.
\<close>

lemma explicit_id_or_path_leaves_context:
  shows "truthyStr destinationId
           \<Longrightarrow> snd (resolveDestination run destinationId destinationName ds split splitAgain c) = c"
    and "s \<noteq> []
           \<Longrightarrow> snd (resolveXcworkspace run (Some s) root config paths pathsAgain c) = c"
  by (simp_all add: resolveDestination_def resolveXcworkspace_def Let_def split: option.splits)

text \<open>
  Claim C9: resolving an explicitly supplied value never writes to selection memory, for
  \<open>--destination\<close> as for the other flags. When the name given with \<open>--destination\<close>
  matches more than one destination, the code hands over to the smart picker, which
  stores the picked id and sets the dirty flag.
\<close>

theorem ambiguous_destination_name_writes_memory:
  "resolveDestination (chooseIndex 1) None (Some ''iPhone'') [myMac, iPhone15, iPhone15Pro]
         ([myMac, iPhone15, iPhone15Pro], []) ([myMac, iPhone15, iPhone15Pro], []) (freshCtx Map.empty)
   = (Inr iPhone15,
      \<lparr>storagePath = ''/work/.sweetpad'',
       persistentState = Map.empty(''cli.destination.id'' \<mapsto> JStr ''ABC-123''),
       stateDirty = True, fzfRuns = 1\<rparr>)"
  by (simp add: resolveDestination_def truthyStr_def matchDestinationName_def trim_def isSpace_def
        toLowerCase_def toLowerChar_def lowerLetters_def upperLetters_def startsWith_def
        myMac_def iPhone15_def iPhone15Pro_def
        pickDestinationSmart_def ctxGetRememberedValue_def getRememberedValue_def freshCtx_def
        rememberedSupported_def rememberAfter_def pickDestination_def destinationItems_def fzfPick_def
        chooseIndex_def
        formatDestinationLabel_def ctxSetRememberedValue_def setRememberedValue_def Let_def)

section \<open>Selection memory on disk\<close>

section \<open>Selection memory on disk\<close>

lemma parentsFrom_append:
  "parentsFrom seen (xs @ ys) = parentsFrom seen xs @ parentsFrom (rev xs @ seen) ys"
  by (induction xs arbitrary: seen) auto

lemma parentsFrom_no_separator: "CHR ''/'' \<notin> set ys \<Longrightarrow> parentsFrom seen ys = []"
  by (induction ys arbitrary: seen) auto

lemma parentsFrom_shorter: "a \<in> set (parentsFrom seen p) \<Longrightarrow> length a < length seen + length p"
proof (induction p arbitrary: seen)
  case Nil
  then show ?case by simp
next
  case (Cons c cs)
  from Cons.prems have "a = rev seen \<or> a \<in> set (parentsFrom (c # seen) cs)"
    by (auto split: if_splits)
  then show ?case
  proof
    assume "a = rev seen"
    then show ?thesis by simp
  next
    assume "a \<in> set (parentsFrom (c # seen) cs)"
    from Cons.IH [OF this] show ?thesis by simp
  qed
qed

lemma parents_statePath:
  assumes "sp \<noteq> []"
  shows "parents (path_join sp STATE_FILE) = parents sp @ [sp]"
proof -
  have "parentsFrom (CHR ''/'' # rev sp) STATE_FILE = []"
    by (rule parentsFrom_no_separator) (simp add: STATE_FILE_def)
  with assms show ?thesis
    by (simp add: parents_def path_join_def parentsFrom_append)
qed

lemma statePath_not_parent: "path_join sp STATE_FILE \<notin> set (parents sp @ [sp])"
proof
  assume "path_join sp STATE_FILE \<in> set (parents sp @ [sp])"
  then have "path_join sp STATE_FILE = sp \<or> path_join sp STATE_FILE \<in> set (parentsFrom [] sp)"
    by (auto simp: parents_def)
  then show False
  proof
    assume "path_join sp STATE_FILE = sp"
    then show False by (simp add: path_join_def)
  next
    assume "path_join sp STATE_FILE \<in> set (parentsFrom [] sp)"
    from parentsFrom_shorter [OF this] show False by (simp add: path_join_def)
  qed
qed

lemma dirname_statePath: "path_dirname (path_join sp STATE_FILE) = sp"
  by (simp add: path_dirname_def path_join_def STATE_FILE_def)

lemma mkdirs_creates:
  assumes "\<forall>a\<in>set as. files f a = None \<and> (a \<in> denied f \<longrightarrow> a = d)"
  shows "mkdirs f d as = Inr (f\<lparr>dirs := dirs f \<union> set as\<rparr>)"
  using assms
proof (induction as arbitrary: f)
  case Nil
  show ?case by simp
next
  case (Cons a as)
  let ?g = "f\<lparr>dirs := insert a (dirs f)\<rparr>"
  have "\<forall>b\<in>set as. files ?g b = None \<and> (b \<in> denied ?g \<longrightarrow> b = d)"
    using Cons.prems by simp
  from Cons.IH [OF this] have "mkdirs ?g d as = Inr (?g\<lparr>dirs := dirs ?g \<union> set as\<rparr>)" .
  moreover have "?g\<lparr>dirs := dirs ?g \<union> set as\<rparr> = f\<lparr>dirs := dirs f \<union> set (a # as)\<rparr>"
    by simp
  ultimately show ?case using Cons.prems by auto
qed

lemma checkParents_passes:
  "(\<forall>a\<in>set as. files f a = None \<and> a \<in> dirs f \<and> a \<notin> denied f) \<Longrightarrow> checkParents f as = None"
  by (induction as) auto

lemma checkParents_file:
  "checkParents f as = None \<Longrightarrow> files f a \<noteq> None \<Longrightarrow> checkParents f (as @ [a]) = Some ENOTDIR"
  by (induction as) (auto split: if_splits)

lemma setAll_in:
  assumes "st \<in> J" and "\<forall>s\<in>J. \<forall>kv\<in>set kvs. setRememberedValue s (fst kv) (snd kv) \<in> J"
  shows "setAll st kvs \<in> J"
  using assms unfolding setAll_def
  by (induction kvs arbitrary: st) auto

lemma setAll_last:
  "kvs \<noteq> [] \<Longrightarrow> getRememberedValue (setAll st kvs) (fst (last kvs)) = Some (snd (last kvs))"
  unfolding setAll_def
  by (induction kvs arbitrary: st) (auto simp: getRememberedValue_def setRememberedValue_def)

lemma save_then_load:
  assumes codec: "parse (stringify s) = Some s"
    and sp: "sp \<noteq> []"
    and anc: "\<forall>a\<in>set (parents sp). files f a = None \<and> a \<notin> denied f"
    and dir: "files f sp = None" "sp \<notin> denied f"
    and stf: "path_join sp STATE_FILE \<notin> dirs f" "path_join sp STATE_FILE \<notin> denied f"
  shows "\<exists>f'. saveState stringify f sp s = Inr f' \<and> loadState parse f' sp = Inr s"
proof -
  let ?p = "path_join sp STATE_FILE"
  let ?ps = "parents sp @ [sp]"
  let ?f1 = "f\<lparr>dirs := dirs f \<union> set ?ps\<rparr>"
  let ?f2 = "?f1\<lparr>files := (files ?f1)(?p \<mapsto> stringify s)\<rparr>"
  have np: "?p \<notin> set ?ps" by (rule statePath_not_parent)
  have mk: "mkdir_recursive f sp = Inr ?f1"
    unfolding mkdir_recursive_def using anc dir by (intro mkdirs_creates) auto
  have c1: "checkParents ?f1 (parents ?p) = None"
    unfolding parents_statePath [OF sp] using anc dir by (intro checkParents_passes) auto
  have wr: "writeFile ?f1 ?p (stringify s) = Inr ?f2"
    using c1 stf np by (simp add: writeFile_def)
  have sv: "saveState stringify f sp s = Inr ?f2"
    using mk wr by (simp add: saveState_def dirname_statePath)
  have c2: "checkParents ?f2 (parents ?p) = None"
    unfolding parents_statePath [OF sp] using anc dir np by (intro checkParents_passes) auto
  have rd: "readFile ?f2 ?p = Inr (stringify s)"
    using c2 stf by (simp add: readFile_def)
  have ld: "loadState parse ?f2 sp = Inr s"
    using rd codec by (simp add: loadState_def)
  from sv ld show ?thesis by blast
qed

lemma schemeState_set: "setRememberedValue (schemeState x) ''cli.scheme'' (JStr y) = schemeState y"
  by (simp add: setRememberedValue_def schemeState_def)

lemma scheme_codec: "\<forall>s\<in>schemeStates. schemeParse (schemeStringify s) = Some s"
  by (auto simp: schemeStates_def schemeState_def schemeParse_def schemeStringify_def)

lemma parents_storage: "parents ''/work/.sweetpad'' = [''/work'']"
  by (simp add: parents_def)

lemma parents_stateFile: "parents ''/work/.sweetpad/cli-state.json'' = [''/work'', ''/work/.sweetpad'']"
  by (simp add: parents_def)

text \<open>
  Saving fails where the runtime fails: with a regular file in the place of an ancestor
  of the storage path, \<open>saveState\<close> returns \<open>ENOTDIR\<close>.
\<close>

lemma saveState_parent_is_file:
  "saveState stringify (emptyFs\<lparr>files := Map.empty(''/work'' \<mapsto> ''x'')\<rparr>) ''/work/.sweetpad'' st
     = Inl (FsError ENOTDIR)"
  by (simp add: saveState_def dirname_statePath mkdir_recursive_def parents_storage emptyFs_def)

text \<open>
  In the runtime context a set operation marks the state dirty, and only a dirty state is
  written: after a set, \<open>savePersistentState\<close> writes the file and \<open>create\<close> reads the
  same state back; without a set nothing is written.
\<close>

lemma context_set_save_create:
  assumes "parse (stringify (persistentState (ctxSetRememberedValue k v c)))
             = Some (persistentState (ctxSetRememberedValue k v c))"
    and "storagePath c \<noteq> []"
    and "\<forall>a\<in>set (parents (storagePath c)). files f a = None \<and> a \<notin> denied f"
    and "files f (storagePath c) = None" and "storagePath c \<notin> denied f"
    and "path_join (storagePath c) STATE_FILE \<notin> dirs f"
    and "path_join (storagePath c) STATE_FILE \<notin> denied f"
  shows "\<exists>f' c'. savePersistentState stringify f (ctxSetRememberedValue k v c)
                    = (Inr f', (ctxSetRememberedValue k v c)\<lparr>stateDirty := False\<rparr>)
               \<and> create parse f' (storagePath c) = Inr c'
               \<and> persistentState c' = persistentState (ctxSetRememberedValue k v c)
               \<and> ctxGetRememberedValue c' k = Some v"
proof -
  let ?c = "ctxSetRememberedValue k v c"
  have sp: "storagePath ?c = storagePath c" and dirty: "stateDirty ?c"
    by (simp_all add: ctxSetRememberedValue_def)
  have "\<exists>f'. saveState stringify f (storagePath c) (persistentState ?c) = Inr f'
            \<and> loadState parse f' (storagePath c) = Inr (persistentState ?c)"
    using assms by (intro save_then_load) auto
  then obtain f' where sv: "saveState stringify f (storagePath c) (persistentState ?c) = Inr f'"
    and ld: "loadState parse f' (storagePath c) = Inr (persistentState ?c)" by blast
  have "savePersistentState stringify f ?c = (Inr f', ?c\<lparr>stateDirty := False\<rparr>)"
    using sv sp dirty by (simp add: savePersistentState_def)
  moreover have "create parse f' (storagePath c)
      = Inr \<lparr>storagePath = storagePath c, persistentState = persistentState ?c,
             stateDirty = False, fzfRuns = 0\<rparr>"
    using ld by (simp add: create_def)
  moreover have "persistentState ?c k = Some v"
    by (simp add: ctxSetRememberedValue_def setRememberedValue_def)
  ultimately show ?thesis
    by (simp add: ctxGetRememberedValue_def getRememberedValue_def)
qed

lemma clean_context_saves_nothing:
  "\<not> stateDirty c \<Longrightarrow> savePersistentState stringify f c = (Inr f, c)"
  by (simp add: savePersistentState_def)

text \<open>
  Claim C6: for every state map and every sequence of set operations with
  JSON-compatible keys and values, saving the state that exists after the sets and
  loading it again yields that state; in particular the value of the last set is read
  back. JSON-compatible states are a set \<open>J\<close> on which the runtime's codec reproduces
  what it is given and which the set operations of the sequence do not leave. Saving
  succeeds when no ancestor of the storage path and not the storage path itself is a
  regular file or lacks permission, and the state file is not a directory and does not
  lack permission.
\<close>

theorem set_save_load_roundtrip:
  assumes codec: "\<forall>s\<in>J. parse (stringify s) = Some s"
    and start: "st \<in> J"
    and sets: "\<forall>s\<in>J. \<forall>kv\<in>set kvs. setRememberedValue s (fst kv) (snd kv) \<in> J"
    and sp: "sp \<noteq> []"
    and anc: "\<forall>a\<in>set (parents sp). files f a = None \<and> a \<notin> denied f"
    and dir: "files f sp = None \<and> sp \<notin> denied f"
    and stf: "path_join sp STATE_FILE \<notin> dirs f \<and> path_join sp STATE_FILE \<notin> denied f"
  shows "\<exists>f' loaded.
           saveState stringify f sp (setAll st kvs) = Inr f'
         \<and> loadState parse f' sp = Inr loaded
         \<and> loaded = setAll st kvs
         \<and> (kvs \<noteq> [] \<longrightarrow>
              getRememberedValue loaded (fst (last kvs)) = Some (snd (last kvs)))"
proof -
  have "setAll st kvs \<in> J" using start sets by (rule setAll_in)
  with codec have c: "parse (stringify (setAll st kvs)) = Some (setAll st kvs)" by blast
  have "\<exists>f'. saveState stringify f sp (setAll st kvs) = Inr f'
            \<and> loadState parse f' sp = Inr (setAll st kvs)"
    using c sp anc dir stf by (intro save_then_load) auto
  then show ?thesis using setAll_last [of kvs st] by auto
qed

theorem set_save_load_roundtrip_witness:
  "\<exists>f' loaded.
      saveState schemeStringify emptyFs ''/work/.sweetpad''
        (setAll (schemeState ''MyApp'')
           [(''cli.scheme'', JStr ''Other''), (''cli.scheme'', JStr ''MyAppTests'')]) = Inr f'
    \<and> loadState schemeParse f' ''/work/.sweetpad'' = Inr loaded
    \<and> loaded = schemeState ''MyAppTests''
    \<and> getRememberedValue loaded ''cli.scheme'' = Some (JStr ''MyAppTests'')"
proof -
  have sets: "\<forall>s\<in>schemeStates.
      \<forall>kv\<in>set [(''cli.scheme'', JStr ''Other''), (''cli.scheme'', JStr ''MyAppTests'')].
        setRememberedValue s (fst kv) (snd kv) \<in> schemeStates"
    by (auto simp: schemeStates_def schemeState_set)
  have start: "schemeState ''MyApp'' \<in> schemeStates"
    by (simp add: schemeStates_def)
  have anc: "\<forall>a\<in>set (parents ''/work/.sweetpad''). files emptyFs a = None \<and> a \<notin> denied emptyFs"
    by (simp add: emptyFs_def)
  have dir: "files emptyFs ''/work/.sweetpad'' = None \<and> ''/work/.sweetpad'' \<notin> denied emptyFs"
    by (simp add: emptyFs_def)
  have stf: "path_join ''/work/.sweetpad'' STATE_FILE \<notin> dirs emptyFs
      \<and> path_join ''/work/.sweetpad'' STATE_FILE \<notin> denied emptyFs"
    by (simp add: emptyFs_def)
  have ne: "''/work/.sweetpad'' \<noteq> []" by simp
  have fin: "setAll (schemeState ''MyApp'')
      [(''cli.scheme'', JStr ''Other''), (''cli.scheme'', JStr ''MyAppTests'')] = schemeState ''MyAppTests''"
    by (simp add: setAll_def schemeState_set)
  from set_save_load_roundtrip [OF scheme_codec start sets ne anc dir stf]
  show ?thesis unfolding fin by simp
qed

text \<open>
  Claim C7: \<open>loadState\<close> returns the empty map when the state file is absent (the read
  fails with \<open>ENOENT\<close>, as it does when the storage directory exists without the
  file); every other read failure, such as \<open>ENOTDIR\<close> when the storage path is a
  regular file, and every parse failure is returned as an error, also by
  \<open>CliRuntimeContext.create\<close>, which calls it.
\<close>

theorem loadState_absent_or_error:
  "(readFile f (path_join sp STATE_FILE) = Inl ENOENT
      \<longrightarrow> loadState parse f sp = Inr Map.empty)
   \<and> (checkParents f (parents (path_join sp STATE_FILE)) = None
      \<and> files f (path_join sp STATE_FILE) = None \<and> path_join sp STATE_FILE \<notin> dirs f
      \<longrightarrow> loadState parse f sp = Inr Map.empty)
   \<and> (sp \<noteq> [] \<and> checkParents f (parents sp) = None \<and> files f sp \<noteq> None
      \<longrightarrow> loadState parse f sp = Inl (FsError ENOTDIR) \<and> create parse f sp = Inl (FsError ENOTDIR))
   \<and> (readFile f (path_join sp STATE_FILE) = Inl e \<and> e \<noteq> ENOENT
      \<longrightarrow> loadState parse f sp = Inl (FsError e) \<and> create parse f sp = Inl (FsError e))
   \<and> (readFile f (path_join sp STATE_FILE) = Inr content \<and> parse content = None
      \<longrightarrow> loadState parse f sp = Inl SyntaxError \<and> create parse f sp = Inl SyntaxError)"
proof (intro conjI impI)
  assume "readFile f (path_join sp STATE_FILE) = Inl ENOENT"
  then show "loadState parse f sp = Inr Map.empty" by (simp add: loadState_def)
next
  assume "checkParents f (parents (path_join sp STATE_FILE)) = None
      \<and> files f (path_join sp STATE_FILE) = None \<and> path_join sp STATE_FILE \<notin> dirs f"
  then have "readFile f (path_join sp STATE_FILE) = Inl ENOENT" by (simp add: readFile_def)
  then show "loadState parse f sp = Inr Map.empty" by (simp add: loadState_def)
next
  assume a: "sp \<noteq> [] \<and> checkParents f (parents sp) = None \<and> files f sp \<noteq> None"
  then have "checkParents f (parents (path_join sp STATE_FILE)) = Some ENOTDIR"
    by (simp add: parents_statePath checkParents_file)
  then have r: "readFile f (path_join sp STATE_FILE) = Inl ENOTDIR" by (simp add: readFile_def)
  then show "loadState parse f sp = Inl (FsError ENOTDIR)" by (simp add: loadState_def)
  from r show "create parse f sp = Inl (FsError ENOTDIR)" by (simp add: loadState_def create_def)
next
  assume a: "readFile f (path_join sp STATE_FILE) = Inl e \<and> e \<noteq> ENOENT"
  then show "loadState parse f sp = Inl (FsError e)" by (simp add: loadState_def)
  from a show "create parse f sp = Inl (FsError e)" by (simp add: loadState_def create_def)
next
  assume a: "readFile f (path_join sp STATE_FILE) = Inr content \<and> parse content = None"
  then show "loadState parse f sp = Inl SyntaxError" by (simp add: loadState_def)
  from a show "create parse f sp = Inl SyntaxError" by (simp add: loadState_def create_def)
qed

theorem loadState_absent_or_error_witness:
  "loadState schemeParse emptyFs ''/work/.sweetpad'' = Inr Map.empty
   \<and> loadState schemeParse storageFs ''/work/.sweetpad'' = Inr Map.empty
   \<and> loadState schemeParse blockedFs ''/work/.sweetpad'' = Inl (FsError ENOTDIR)
   \<and> loadState schemeParse (storageFs\<lparr>dirs := insert ''/work/.sweetpad/cli-state.json'' (dirs storageFs)\<rparr>)
        ''/work/.sweetpad'' = Inl (FsError EISDIR)
   \<and> create schemeParse (storageFs\<lparr>denied := {''/work/.sweetpad''}\<rparr>) ''/work/.sweetpad''
        = Inl (FsError EACCES)
   \<and> loadState schemeParse (storageFs\<lparr>files := Map.empty(''/work/.sweetpad/cli-state.json'' \<mapsto> [])\<rparr>)
        ''/work/.sweetpad'' = Inl SyntaxError"
  using loadState_absent_or_error [where f = emptyFs and sp = "''/work/.sweetpad''" and parse = schemeParse]
    loadState_absent_or_error [where f = storageFs and sp = "''/work/.sweetpad''" and parse = schemeParse]
    loadState_absent_or_error [where f = blockedFs and sp = "''/work/.sweetpad''" and parse = schemeParse]
    loadState_absent_or_error [where f = "storageFs\<lparr>dirs := insert ''/work/.sweetpad/cli-state.json'' (dirs storageFs)\<rparr>"
      and sp = "''/work/.sweetpad''" and e = EISDIR and parse = schemeParse]
    loadState_absent_or_error [where f = "storageFs\<lparr>denied := {''/work/.sweetpad''}\<rparr>"
      and sp = "''/work/.sweetpad''" and e = EACCES and parse = schemeParse]
    loadState_absent_or_error [where f = "storageFs\<lparr>files := Map.empty(''/work/.sweetpad/cli-state.json'' \<mapsto> [])\<rparr>"
      and sp = "''/work/.sweetpad''" and content = "[]" and parse = schemeParse]
  by (simp add: emptyFs_def storageFs_def blockedFs_def readFile_def path_join_def STATE_FILE_def
        schemeParse_def parents_stateFile parents_storage)

section \<open>Environment overrides\<close>

lemma set_knownKeys: "set (knownKeys extracted) = fst ` set extracted \<union> set builtinKeys"
proof -
  have "(\<lambda>k. k) ` set (keepLast (\<lambda>k. k) (rev (map fst extracted @ builtinKeys)))
          = (\<lambda>k. k) ` set (rev (map fst extracted @ builtinKeys))"
    by (rule keepLast_keys)
  then show ?thesis
    by (simp add: knownKeys_def filterSeen_keepFirst keepFirst_def Un_commute)
qed

lemma startsWith_split: "startsWith k p \<Longrightarrow> k = p @ drop (length p) k"
  by (metis append_take_drop_id startsWith_def)

lemma startsWith_append: "startsWith (p @ k) p"
  by (simp add: startsWith_def)

lemma extracted_keys:
  "(k \<in> fst ` set (extractSweetpadConfig settings)) = (''sweetpad.'' @ k \<in> fst ` set settings)"
proof (induction settings)
  case Nil
  show ?case by simp
next
  case (Cons kv rest)
  obtain k' v where kv: "kv = (k', v)" by (cases kv)
  show ?case
  proof (cases "startsWith k' ''sweetpad.''")
    case True
    then have k': "k' = ''sweetpad.'' @ drop (length ''sweetpad.'') k'"
      by (rule startsWith_split)
    have "(k = drop (length ''sweetpad.'') k') = (''sweetpad.'' @ k = k')"
      using k' by (metis same_append_eq)
    with True Cons.IH kv show ?thesis by auto
  next
    case False
    then have "''sweetpad.'' @ k \<noteq> k'" using startsWith_append by blast
    with False Cons.IH kv show ?thesis by auto
  qed
qed

lemma assignAll_dom: "dom (assignAll m es) = dom m \<union> fst ` set es"
  unfolding assignAll_def by (induction es arbitrary: m) auto

lemma foldl_applyEnv:
  "foldl (applyEnv jp env) cfg ks k =
     (if k \<in> set ks then
        (case env (envKeyForConfigKey k) of
           None \<Rightarrow> cfg k
         | Some raw \<Rightarrow> Some (parseEnvValue jp raw))
      else cfg k)"
proof (induction ks arbitrary: cfg)
  case Nil
  show ?case by simp
next
  case (Cons a ks)
  show ?case
    unfolding foldl_Cons Cons.IH
    by (auto simp: applyEnv_def split: option.splits)
qed

lemma loadCliConfig_value:
  "loadCliConfig jp env sf = Inr config \<Longrightarrow>
   config k =
     (if k \<in> set (knownKeys (extractSweetpadConfig (settingsEntries sf))) then
        (case env (envKeyForConfigKey k) of
           None \<Rightarrow> assignAll Map.empty (extractSweetpadConfig (settingsEntries sf)) k
         | Some raw \<Rightarrow> Some (parseEnvValue jp raw))
      else assignAll Map.empty (extractSweetpadConfig (settingsEntries sf)) k)"
proof (cases sf)
  case None
  assume "loadCliConfig jp env sf = Inr config"
  with None have "config = foldl (applyEnv jp env) Map.empty (knownKeys [])"
    by (simp add: loadCliConfig_def)
  with None show ?thesis
    by (simp add: foldl_applyEnv settingsEntries_def assignAll_def cong: option.case_cong)
next
  case (Some r)
  assume a: "loadCliConfig jp env sf = Inr config"
  show ?thesis
  proof (cases r)
    case (Inl e)
    with Some a show ?thesis by (simp add: loadCliConfig_def)
  next
    case (Inr settings)
    with Some a have "config = foldl (applyEnv jp env)
        (assignAll Map.empty (extractSweetpadConfig settings)) (knownKeys (extractSweetpadConfig settings))"
      by (simp add: loadCliConfig_def Let_def)
    with Some Inr show ?thesis
      by (simp add: foldl_applyEnv settingsEntries_def cong: option.case_cong)
  qed
qed

lemma loadCliConfig_isl:
  "(\<exists>e. loadCliConfig jp env sf = Inl e) = (\<exists>e. loadCliConfig jp env' sf = Inl e)"
  by (auto simp: loadCliConfig_def Let_def split: option.splits sum.splits)

lemma envKeys_builtin:
  "map envKeyForConfigKey builtinKeys =
   [''SWEETPAD_BUILD_CONFIGURATION'', ''SWEETPAD_BUILD_ARCH'', ''SWEETPAD_BUILD_ARGS'',
  ''SWEETPAD_BUILD_ENV'', ''SWEETPAD_BUILD_LAUNCHARGS'',
  ''SWEETPAD_BUILD_LAUNCHENV'', ''SWEETPAD_BUILD_ROSETTADESTINATION'',
  ''SWEETPAD_BUILD_ALLOWPROVISIONINGUPDATES'',
  ''SWEETPAD_BUILD_XCBEAUTIFYENABLED'', ''SWEETPAD_BUILD_DERIVEDDATAPATH'',
  ''SWEETPAD_BUILD_XCODEWORKSPACEPATH'',
  ''SWEETPAD_BUILD_BRINGSIMULATORTOFOREGROUND'',
  ''SWEETPAD_XCODEBUILDSERVER_AUTOGENERATE'', ''SWEETPAD_XCODEBUILDSERVER_PATH'',
  ''SWEETPAD_SYSTEM_CUSTOMXCODEWORKSPACEPARSER'']"
  by code_simp

lemma knownKeys_nil: "knownKeys [] = builtinKeys"
  by (simp add: knownKeys_def builtinKeys_def)

text \<open>
  Claim C10: \<open>loadCliConfig\<close> consults the environment override of a key only when
  the key is in the built-in list or appears (with the \<open>sweetpad.\<close> prefix) in the
  settings file. A key that is neither is absent from the resulting map whatever the
  environment holds, and two environments that agree on the override variables of those
  keys give the same configuration.
\<close>

theorem env_override_only_for_known_keys:
  assumes "loadCliConfig jsonParse env settingsFile = Inr config"
  shows "(k \<notin> set builtinKeys \<and> ''sweetpad.'' @ k \<notin> fst ` set (settingsEntries settingsFile)
            \<longrightarrow> config k = None)
       \<and> ((\<forall>k'. k' \<in> set builtinKeys \<or> ''sweetpad.'' @ k' \<in> fst ` set (settingsEntries settingsFile)
                \<longrightarrow> env' (envKeyForConfigKey k') = env (envKeyForConfigKey k'))
            \<longrightarrow> loadCliConfig jsonParse env' settingsFile = Inr config)"
proof (intro conjI impI)
  let ?ex = "extractSweetpadConfig (settingsEntries settingsFile)"
  assume "k \<notin> set builtinKeys \<and> ''sweetpad.'' @ k \<notin> fst ` set (settingsEntries settingsFile)"
  then have nk: "k \<notin> set (knownKeys ?ex)" and nx: "k \<notin> fst ` set ?ex"
    by (simp_all add: set_knownKeys extracted_keys)
  from nx have "k \<notin> dom (assignAll Map.empty ?ex)" by (simp add: assignAll_dom)
  then have "assignAll Map.empty ?ex k = None" by blast
  with nk loadCliConfig_value [OF assms, of k] show "config k = None" by simp
next
  let ?ex = "extractSweetpadConfig (settingsEntries settingsFile)"
  assume agree: "\<forall>k'. k' \<in> set builtinKeys \<or> ''sweetpad.'' @ k' \<in> fst ` set (settingsEntries settingsFile)
                \<longrightarrow> env' (envKeyForConfigKey k') = env (envKeyForConfigKey k')"
  obtain config' where c': "loadCliConfig jsonParse env' settingsFile = Inr config'"
    using assms loadCliConfig_isl [of jsonParse env' settingsFile env]
    by (cases "loadCliConfig jsonParse env' settingsFile") auto
  have "config' k' = config k'" for k'
  proof (cases "k' \<in> set (knownKeys ?ex)")
    case True
    then have "env' (envKeyForConfigKey k') = env (envKeyForConfigKey k')"
      using agree by (simp add: set_knownKeys extracted_keys) blast
    with loadCliConfig_value [OF assms, of k'] loadCliConfig_value [OF c', of k'] show ?thesis
      by simp
  next
    case False
    with loadCliConfig_value [OF assms, of k'] loadCliConfig_value [OF c', of k'] show ?thesis
      by simp
  qed
  then have "config' = config" by (rule ext)
  with c' show "loadCliConfig jsonParse env' settingsFile = Inr config" by simp
qed

theorem env_override_only_for_known_keys_witness:
  "loadCliConfig noJsonParse sampleEnv None = Inr (Map.empty(''build.arch'' \<mapsto> JStr ''arm64''))
   \<and> (Map.empty(''build.arch'' \<mapsto> JStr ''arm64'')) ''foo.bar'' = None
   \<and> loadCliConfig noJsonParse sampleEnvWithout None = Inr (Map.empty(''build.arch'' \<mapsto> JStr ''arm64''))"
proof -
  have l: "loadCliConfig noJsonParse sampleEnv None = Inr (Map.empty(''build.arch'' \<mapsto> JStr ''arm64''))"
    using envKeys_builtin
    by (simp add: loadCliConfig_def knownKeys_nil builtinKeys_def applyEnv_def 
      sampleEnv_def parseEnvValue_def trim_def isSpace_def startsWith_def noJsonParse_def)
  have "\<forall>e \<in> set (map envKeyForConfigKey builtinKeys). sampleEnvWithout e = sampleEnv e"
    unfolding envKeys_builtin by (simp add: sampleEnv_def sampleEnvWithout_def)
  then have agree: "\<forall>k'. k' \<in> set builtinKeys \<or> ''sweetpad.'' @ k' \<in> fst ` set (settingsEntries None)
                \<longrightarrow> sampleEnvWithout (envKeyForConfigKey k') = sampleEnv (envKeyForConfigKey k')"
    by (simp add: settingsEntries_def)
  have unknown: "''foo.bar'' \<notin> set builtinKeys \<and> ''sweetpad.'' @ ''foo.bar'' \<notin> fst ` set (settingsEntries None)"
    by (simp add: settingsEntries_def builtinKeys_def)
  from env_override_only_for_known_keys [OF l, of "''foo.bar''" sampleEnvWithout] agree unknown l
  show ?thesis by blast
qed

end
